theory Spec2Isabelle
  imports Complex_Main
begin

section \<open>Values and records read from the invoice store\<close>

text \<open>
  The agents read their invoices from JSON documents. A scalar field holds \<open>null\<close>, a
  number or text; Python's \<open>float\<close> is modelled by \<open>real\<close>, so rounding to the nearest
  double, infinities and NaN are outside the model.
\<close>

datatype pyval = VNone | VNum real | VStr string

datatype error = TypeError | ValueError | ZeroDivisionError

text \<open>
  The \<open>timestamp\<close> field after \<open>datetime.fromisoformat\<close>: \<open>Parsed t\<close> for the ISO text of
  a naive point in time, \<open>t\<close> in microseconds, and \<open>Unparseable\<close> for every value on which
  \<open>fromisoformat\<close> raises (\<open>null\<close>, a number, malformed text).
\<close>

datatype stamp = Unparseable | Parsed int

record line_item =
  description :: "string option"
  quantity :: "pyval option"
  unit_price :: "pyval option"
  total :: "pyval option"

text \<open>
  An invoice is a dictionary; a field is \<open>None\<close> when its key is absent. The names are
  text, as the data model of the specification has them.
\<close>

record invoice =
  supplier_name :: "string option"
  invoice_number :: "string option"
  total_amount :: "pyval option"
  vat_amount :: "pyval option"
  line_items :: "line_item list option"
  timestamp :: "stamp option"
  status :: "string option"
  flags :: "string list option"

text \<open>\<open>d.get(key)\<close> of a scalar field: \<open>None\<close> when the key is absent.\<close>

definition py_get :: "pyval option \<Rightarrow> pyval" where
  "py_get field = (case field of None \<Rightarrow> VNone | Some v \<Rightarrow> v)"

text \<open>\<open>d.get(key, '')\<close> of a text field.\<close>

definition get_str :: "string option \<Rightarrow> string" where
  "get_str field = (case field of None \<Rightarrow> [] | Some s \<Rightarrow> s)"

subsection \<open>Text\<close>

definition is_digit :: "char \<Rightarrow> bool" where
  "is_digit c = (c \<in> set ''0123456789'')"

definition digit_val :: "char \<Rightarrow> nat" where
  "digit_val c = of_char c - 48"

text \<open>The characters \<open>str.strip()\<close> removes, within ASCII.\<close>

definition is_space :: "char \<Rightarrow> bool" where
  "is_space c = (c \<in> {CHR '' '', CHR 0x09, CHR 0x0A, CHR 0x0B, CHR 0x0C, CHR 0x0D,
                       CHR 0x1C, CHR 0x1D, CHR 0x1E, CHR 0x1F})"

definition strip :: "string \<Rightarrow> string" where
  "strip s = rev (dropWhile is_space (rev (dropWhile is_space s)))"

text \<open>\<open>s.replace(c, "")\<close> for a single character \<open>c\<close>.\<close>

definition remove_char :: "char \<Rightarrow> string \<Rightarrow> string" where
  "remove_char c s = filter (\<lambda>x. x \<noteq> c) s"

text \<open>\<open>str.lower()\<close> on ASCII letters.\<close>

definition lower_char :: "char \<Rightarrow> char" where
  "lower_char c =
     (case map_of (zip ''ABCDEFGHIJKLMNOPQRSTUVWXYZ'' ''abcdefghijklmnopqrstuvwxyz'') c of
        None \<Rightarrow> c
      | Some l \<Rightarrow> l)"

definition lower :: "string \<Rightarrow> string" where
  "lower s = map lower_char s"

section \<open>Amount normalization: \<open>_safe_float\<close>\<close>

text \<open>
  What the pattern \<open>\d+\.?\d*\<close> consumes at the start of a text that begins with a
  digit: the digits, then a point if one follows, then the digits after it. Every part
  is greedy and nothing follows the pattern, so there is no backtracking.
\<close>

definition match_number :: "string \<Rightarrow> string" where
  "match_number s =
     (let ds = takeWhile is_digit s; rest = dropWhile is_digit s
      in case rest of
           [] \<Rightarrow> ds
         | c # cs \<Rightarrow> if c = CHR ''.'' then ds @ [c] @ takeWhile is_digit cs else ds)"

text \<open>
  \<open>re.search(r"[-]?\d+\.?\d*", s)\<close>: the leftmost position where the pattern matches,
  and the text matched there (\<open>m.group(0)\<close>). A minus sign belongs to the match only
  when a digit follows it directly.
\<close>

fun re_search :: "string \<Rightarrow> string option" where
  "re_search [] = None"
| "re_search (c # cs) =
     (if c = CHR ''-'' \<and> cs \<noteq> [] \<and> is_digit (hd cs) then Some (c # match_number cs)
      else if is_digit c then Some (match_number (c # cs))
      else re_search cs)"

definition digits_val :: "string \<Rightarrow> nat" where
  "digits_val ds = foldl (\<lambda>n c. 10 * n + digit_val c) 0 ds"

text \<open>
  \<open>float(m.group(0))\<close> on a text of the shape the pattern can return: an optional minus
  sign, digits, and optionally a point with digits after it. \<open>None\<close> stands for the
  \<open>ValueError\<close> of any other text.
\<close>

definition float_of_match :: "string \<Rightarrow> real option" where
  "float_of_match tok =
     (let neg = (tok \<noteq> [] \<and> hd tok = CHR ''-'');
          body = (if neg then tl tok else tok);
          ip = takeWhile is_digit body;
          rest = dropWhile is_digit body;
          fp = (case rest of
                  [] \<Rightarrow> Some []
                | c # cs \<Rightarrow> if c = CHR ''.'' \<and> list_all is_digit cs then Some cs else None)
      in if ip = [] then None
         else case fp of
                None \<Rightarrow> None
              | Some fs \<Rightarrow>
                  Some ((if neg then - 1 else 1) *
                        (real (digits_val ip) + real (digits_val fs) / 10 ^ length fs)))"

definition safe_float :: "pyval \<Rightarrow> real \<Rightarrow> real" where
  "safe_float val dflt =
     (case val of
        VNone \<Rightarrow> dflt
      | VNum r \<Rightarrow> r
      | VStr t \<Rightarrow>
          (let s = remove_char CHR '' '' (remove_char CHR '','' (strip t))
           in case re_search s of
                None \<Rightarrow> dflt
              | Some tok \<Rightarrow> (case float_of_match tok of None \<Rightarrow> dflt | Some r \<Rightarrow> r)))"

text \<open>A field is unparseable when it is absent, \<open>null\<close> or text without a digit.\<close>

definition unparseable :: "pyval option \<Rightarrow> bool" where
  "unparseable field =
     (case py_get field of
        VNone \<Rightarrow> True
      | VNum r \<Rightarrow> False
      | VStr t \<Rightarrow> \<not> list_ex is_digit t)"

section \<open>The fraud detectors\<close>

text \<open>
  The text of a finding's \<open>reason\<close> is an f-string; the model keeps which message it is
  and the values formatted into it.
\<close>

datatype reason =
    DuplicateInvoiceNumber string
  | SameSupplierAmount
  | SuspiciouslyRound real
  | RoundNumber real
  | VelocityPattern nat string
  | TotalMismatch real real

text \<open>
  A finding is the dictionary a detector returns or appends; a key the detector does not
  set is \<open>None\<close>. A detector that returns \<open>{'detected': False}\<close> returns no finding.
\<close>

record finding =
  ftype :: "string option"
  severity :: string
  fmatch :: "invoice option"
  freason :: reason
  fcount :: "nat option"
  discrepancy :: "real option"

text \<open>
  \<open>timedelta.days\<close> of a difference of two points in time, in microseconds: the number of
  whole days, rounded down.
\<close>

definition days :: "int \<Rightarrow> int" where
  "days delta = delta div 86400000000"

text \<open>
  \<open>datetime.fromisoformat(existing.get('timestamp', datetime.now().isoformat()))\<close>:
  \<open>None\<close> when it raises. The clock is read once, as \<open>now\<close>.
\<close>

definition existing_date :: "int \<Rightarrow> invoice \<Rightarrow> int option" where
  "existing_date now existing =
     (case timestamp existing of
        None \<Rightarrow> Some now
      | Some Unparseable \<Rightarrow> None
      | Some (Parsed t) \<Rightarrow> Some t)"

subsection \<open>\<open>detect_duplicate_invoices\<close>\<close>

definition exact_duplicate :: "string \<Rightarrow> invoice \<Rightarrow> finding" where
  "exact_duplicate invoice_num existing =
     \<lparr>ftype = Some ''exact_duplicate'', severity = ''critical'', fmatch = Some existing,
      freason = DuplicateInvoiceNumber invoice_num, fcount = None, discrepancy = None\<rparr>"

definition suspicious_duplicate :: "invoice \<Rightarrow> finding" where
  "suspicious_duplicate existing =
     \<lparr>ftype = Some ''suspicious_duplicate'', severity = ''high'', fmatch = Some existing,
      freason = SameSupplierAmount, fcount = None, discrepancy = None\<rparr>"

text \<open>The body of the loop: what one record of the store appends.\<close>

definition duplicates_of :: "int \<Rightarrow> string \<Rightarrow> real \<Rightarrow> string \<Rightarrow> invoice \<Rightarrow> finding list" where
  "duplicates_of now supplier amount invoice_num existing =
     (if invoice_number existing = Some invoice_num
      then [exact_duplicate invoice_num existing] else []) @
     (if lower (get_str (supplier_name existing)) = supplier
      then (let existing_amount = safe_float (py_get (total_amount existing)) 0
            in if \<bar>amount - existing_amount\<bar> < 0.01
               then (case existing_date now existing of
                       None \<Rightarrow> []
                     | Some d \<Rightarrow> if \<bar>days (now - d)\<bar> \<le> 30
                                then [suspicious_duplicate existing] else [])
               else [])
      else [])"

fun duplicates_loop :: "int \<Rightarrow> string \<Rightarrow> real \<Rightarrow> string \<Rightarrow> invoice list \<Rightarrow> finding list" where
  "duplicates_loop now supplier amount invoice_num [] = []"
| "duplicates_loop now supplier amount invoice_num (existing # rest) =
     duplicates_of now supplier amount invoice_num existing @
     duplicates_loop now supplier amount invoice_num rest"

definition detect_duplicate_invoices :: "invoice list \<Rightarrow> int \<Rightarrow> invoice \<Rightarrow> finding list" where
  "detect_duplicate_invoices invoices_db now invoice =
     (let supplier = lower (get_str (supplier_name invoice));
          amount = safe_float (py_get (total_amount invoice)) 0;
          invoice_num = get_str (invoice_number invoice)
      in duplicates_loop now supplier amount invoice_num invoices_db)"

subsection \<open>\<open>detect_round_number_fraud\<close>\<close>

text \<open>Python's \<open>x % y\<close> on floats, for a positive \<open>y\<close>.\<close>

definition py_mod :: "real \<Rightarrow> real \<Rightarrow> real" where
  "py_mod x y = x - y * of_int \<lfloor>x / y\<rfloor>"

definition round_finding :: "string \<Rightarrow> reason \<Rightarrow> finding" where
  "round_finding sev r =
     \<lparr>ftype = None, severity = sev, fmatch = None, freason = r, fcount = None,
      discrepancy = None\<rparr>"

definition detect_round_number_fraud :: "invoice \<Rightarrow> finding option" where
  "detect_round_number_fraud invoice =
     (let amount = safe_float (py_get (total_amount invoice)) 0
      in if amount > 1000 \<and> py_mod amount 1000 = 0
         then Some (round_finding ''medium'' (SuspiciouslyRound amount))
         else if amount > 100 \<and> py_mod amount 100 = 0 \<and> amount < 1000
         then Some (round_finding ''low'' (RoundNumber amount))
         else None)"

subsection \<open>\<open>detect_velocity_attack\<close>\<close>

text \<open>The loop that counts, with the counter as an argument.\<close>

fun recent_count :: "int \<Rightarrow> string \<Rightarrow> nat \<Rightarrow> invoice list \<Rightarrow> nat" where
  "recent_count now supplier n [] = n"
| "recent_count now supplier n (existing # rest) =
     recent_count now supplier
       (if lower (get_str (supplier_name existing)) = supplier
        then (case existing_date now existing of
                None \<Rightarrow> n
              | Some d \<Rightarrow> if days (now - d) \<le> 7 then n + 1 else n)
        else n)
       rest"

definition velocity_finding :: "nat \<Rightarrow> string \<Rightarrow> finding" where
  "velocity_finding n supplier =
     \<lparr>ftype = None, severity = ''high'', fmatch = None, freason = VelocityPattern n supplier,
      fcount = Some n, discrepancy = None\<rparr>"

definition detect_velocity_attack :: "invoice list \<Rightarrow> int \<Rightarrow> invoice \<Rightarrow> finding option" where
  "detect_velocity_attack invoices_db now invoice =
     (let supplier = lower (get_str (supplier_name invoice));
          n = recent_count now supplier 0 invoices_db
      in if n \<ge> 5 then Some (velocity_finding n supplier) else None)"

subsection \<open>\<open>detect_calculation_anomalies\<close>\<close>

definition calculation_finding :: "real \<Rightarrow> real \<Rightarrow> finding" where
  "calculation_finding expected_total tot =
     \<lparr>ftype = None, severity = ''high'', fmatch = None,
      freason = TotalMismatch expected_total tot, fcount = None,
      discrepancy = Some (tot - expected_total)\<rparr>"

definition detect_calculation_anomalies :: "invoice \<Rightarrow> finding option" where
  "detect_calculation_anomalies invoice =
     (let items = (case line_items invoice of None \<Rightarrow> [] | Some l \<Rightarrow> l);
          tot = safe_float (py_get (total_amount invoice)) 0;
          vat = safe_float (py_get (vat_amount invoice)) 0
      in if items = [] then None
         else (let calculated_subtotal =
                     sum_list (map (\<lambda>item. safe_float (py_get (total item)) 0) items);
                   expected_total = calculated_subtotal + vat
               in if \<bar>tot - expected_total\<bar> > 1.0
                  then Some (calculation_finding expected_total tot)
                  else None))"

subsection \<open>The findings of \<open>analyze_invoice\<close>\<close>

text \<open>
  \<open>detected_issues\<close> as \<open>analyze_invoice\<close> builds it, before the advisory model is asked:
  the duplicates, then the round-number, velocity and calculation findings that fired.
\<close>

definition detected_issues :: "invoice list \<Rightarrow> int \<Rightarrow> invoice \<Rightarrow> finding list" where
  "detected_issues invoices_db now invoice =
     detect_duplicate_invoices invoices_db now invoice @
     (case detect_round_number_fraud invoice of None \<Rightarrow> [] | Some f \<Rightarrow> [f]) @
     (case detect_velocity_attack invoices_db now invoice of None \<Rightarrow> [] | Some f \<Rightarrow> [f]) @
     (case detect_calculation_anomalies invoice of None \<Rightarrow> [] | Some f \<Rightarrow> [f])"

section \<open>The supplier risk score: \<open>calculate_risk_score\<close>\<close>

record risk_score =
  score :: int
  level :: string
  rreason :: "string option"
  total_invoices :: "nat option"
  flagged_invoices :: "nat option"

text \<open>Python's \<open>round\<close> to an integer: to the nearest, and a tie to the even one.\<close>

definition py_round :: "real \<Rightarrow> int" where
  "py_round x =
     (let f = \<lfloor>x\<rfloor>; d = x - of_int f
      in if d < 1 / 2 then f
         else if d > 1 / 2 then f + 1
         else if even f then f else f + 1)"

text \<open>
  \<open>statistics.mean\<close> and \<open>statistics.stdev\<close> (the sample standard deviation). They are
  called on a list of at least one and at least two numbers, where they do not raise.
\<close>

definition mean :: "real list \<Rightarrow> real" where
  "mean xs = sum_list xs / real (length xs)"

definition stdev :: "real list \<Rightarrow> real" where
  "stdev xs = sqrt (sum_list (map (\<lambda>x. (x - mean xs)\<^sup>2) xs) / real (length xs - 1))"

text \<open>\<open>inv.get('flags', [])\<close> as a condition: true for a list that is not empty.\<close>

definition has_flags :: "invoice \<Rightarrow> bool" where
  "has_flags invoice = (case flags invoice of None \<Rightarrow> False | Some fl \<Rightarrow> fl \<noteq> [])"

text \<open>
  The loop that collects \<open>dates\<close>: \<open>datetime.fromisoformat(inv.get('timestamp'))\<close> raises on
  an absent or unparseable timestamp, and the record is skipped.
\<close>

fun collect_dates :: "invoice list \<Rightarrow> int list" where
  "collect_dates [] = []"
| "collect_dates (invoice # rest) =
     (case timestamp invoice of
        Some (Parsed t) \<Rightarrow> t # collect_dates rest
      | _ \<Rightarrow> collect_dates rest)"

text \<open>\<open>[(dates[i+1] - dates[i]).days for i in range(len(dates)-1)]\<close>\<close>

definition day_gaps :: "int list \<Rightarrow> int list" where
  "day_gaps dates = map (\<lambda>i. days (dates ! (i + 1) - dates ! i)) [0 ..< length dates - 1]"

text \<open>
  Factor 3: by how much \<open>risk_factors\<close> grows. The division by \<open>len(dates) - 1\<close> raises
  \<open>ZeroDivisionError\<close> when exactly one timestamp was collected.
\<close>

definition frequency_factor :: "invoice list \<Rightarrow> error + nat" where
  "frequency_factor supplier_invoices =
     (if length supplier_invoices > 10
      then (let dates = collect_dates supplier_invoices
            in if dates \<noteq> []
               then (let dates = sort dates
                     in if length dates - 1 = 0 then Inl ZeroDivisionError
                        else (let avg_days_between =
                                    real_of_int (sum_list (day_gaps dates)) /
                                    real (length dates - 1)
                              in if avg_days_between < 3 then Inr 1 else Inr 0))
               else Inr 0)
      else Inr 0)"

definition risk_level :: "real \<Rightarrow> string" where
  "risk_level risk_score =
     (if risk_score < 30 then ''low'' else if risk_score < 60 then ''medium'' else ''high'')"

definition calculate_risk_score :: "invoice list \<Rightarrow> string \<Rightarrow> error + risk_score" where
  "calculate_risk_score invoices_db name =
     (let supplier = lower name;
          supplier_invoices =
            filter (\<lambda>invoice. lower (get_str (supplier_name invoice)) = supplier) invoices_db
      in if supplier_invoices = []
         then Inr \<lparr>score = 50, level = ''medium'',
                   rreason = Some ''New supplier - no historical data'',
                   total_invoices = None, flagged_invoices = None\<rparr>
         else
           (let risk_factors = (0::nat);
                total_factors = (0::nat);
                flagged = length (filter has_flags supplier_invoices);
                total_factors = total_factors + 1;
                risk_factors =
                  (if real flagged > real (length supplier_invoices) * 0.3
                   then risk_factors + 1 else risk_factors);
                amounts =
                  map (\<lambda>invoice. safe_float (py_get (total_amount invoice)) 0) supplier_invoices;
                total_factors = (if length amounts > 1 then total_factors + 1 else total_factors);
                risk_factors =
                  (if length amounts > 1 \<and> stdev amounts > mean amounts * 0.5
                   then risk_factors + 1 else risk_factors);
                total_factors = total_factors + 1
            in case frequency_factor supplier_invoices of
                 Inl e \<Rightarrow> Inl e
               | Inr k \<Rightarrow>
                   (let risk_factors = risk_factors + k;
                        risk_score =
                          (if total_factors > 0
                           then real risk_factors / real total_factors * 100 else 50)
                    in Inr \<lparr>score = py_round risk_score, level = risk_level risk_score,
                             rreason = None,
                             total_invoices = Some (length supplier_invoices),
                             flagged_invoices = Some flagged\<rparr>)))"

section \<open>Payment reconciliation\<close>

record payment =
  tx_hash :: string
  sender :: string
  recipient :: string
  pay_value :: real
  block_number :: int

text \<open>
  The dictionary \<open>match_payment_to_invoice\<close> returns; a key it does not set is \<open>None\<close>.
\<close>

record match_result =
  matched :: bool
  m_invoice :: "invoice option"
  m_payment :: payment
  match_type :: "string option"
  difference :: "real option"
  paid_percentage :: "real option"
  m_reason :: "string option"

text \<open>
  Python's \<open>float(x)\<close>. What it makes of a text is the parameter \<open>float_of_text\<close>, \<open>None\<close>
  where it raises \<open>ValueError\<close>.
\<close>

definition py_float :: "(string \<Rightarrow> real option) \<Rightarrow> pyval \<Rightarrow> error + real" where
  "py_float float_of_text v =
     (case v of
        VNone \<Rightarrow> Inl TypeError
      | VNum r \<Rightarrow> Inr r
      | VStr t \<Rightarrow> (case float_of_text t of None \<Rightarrow> Inl ValueError | Some r \<Rightarrow> Inr r))"

definition exact_match :: "invoice \<Rightarrow> payment \<Rightarrow> match_result" where
  "exact_match invoice payment =
     \<lparr>matched = True, m_invoice = Some invoice, m_payment = payment, match_type = Some ''exact'',
      difference = Some 0, paid_percentage = None, m_reason = None\<rparr>"

definition partial_match :: "invoice \<Rightarrow> payment \<Rightarrow> real \<Rightarrow> real \<Rightarrow> match_result" where
  "partial_match invoice payment payment_amount invoice_total =
     \<lparr>matched = True, m_invoice = Some invoice, m_payment = payment, match_type = Some ''partial'',
      difference = Some (invoice_total - payment_amount),
      paid_percentage = Some (payment_amount / invoice_total * 100), m_reason = None\<rparr>"

definition no_match :: "payment \<Rightarrow> match_result" where
  "no_match payment =
     \<lparr>matched = False, m_invoice = None, m_payment = payment, match_type = None,
      difference = None, paid_percentage = None,
      m_reason = Some ''No matching invoice found''\<rparr>"

text \<open>\<open>float(invoice.get('total_amount', 0))\<close>\<close>

definition invoice_total_of :: "(string \<Rightarrow> real option) \<Rightarrow> invoice \<Rightarrow> error + real" where
  "invoice_total_of float_of_text invoice =
     py_float float_of_text (case total_amount invoice of None \<Rightarrow> VNum 0 | Some v \<Rightarrow> v)"

fun match_loop ::
  "(string \<Rightarrow> real option) \<Rightarrow> invoice list \<Rightarrow> payment \<Rightarrow> real \<Rightarrow> real \<Rightarrow> error + match_result"
where
  "match_loop float_of_text [] payment payment_amount tolerance = Inr (no_match payment)"
| "match_loop float_of_text (invoice # rest) payment payment_amount tolerance =
     (case invoice_total_of float_of_text invoice of
        Inl e \<Rightarrow> Inl e
      | Inr invoice_total \<Rightarrow>
          if \<bar>payment_amount - invoice_total\<bar> \<le> tolerance
          then Inr (exact_match invoice payment)
          else if payment_amount < invoice_total \<and> payment_amount > 0
          then Inr (partial_match invoice payment payment_amount invoice_total)
          else match_loop float_of_text rest payment payment_amount tolerance)"

definition match_payment_to_invoice ::
  "(string \<Rightarrow> real option) \<Rightarrow> invoice list \<Rightarrow> payment \<Rightarrow> real \<Rightarrow> error + match_result"
where
  "match_payment_to_invoice float_of_text pending_invoices payment tolerance =
     (let payment_amount = pay_value payment
      in match_loop float_of_text pending_invoices payment payment_amount tolerance)"

text \<open>\<open>load_pending_invoices\<close>: the records of the store whose status is \<open>pending\<close>.\<close>

definition load_pending_invoices :: "invoice list \<Rightarrow> invoice list" where
  "load_pending_invoices data = filter (\<lambda>invoice. status invoice = Some ''pending'') data"

text \<open>The loop of \<open>reconcile_payments\<close>; the first payment that raises ends it.\<close>

fun match_all ::
  "(string \<Rightarrow> real option) \<Rightarrow> invoice list \<Rightarrow> payment list \<Rightarrow> error + match_result list"
where
  "match_all float_of_text pending_invoices [] = Inr []"
| "match_all float_of_text pending_invoices (payment # rest) =
     (case match_payment_to_invoice float_of_text pending_invoices payment 0.01 of
        Inl e \<Rightarrow> Inl e
      | Inr m \<Rightarrow>
          (case match_all float_of_text pending_invoices rest of
             Inl e \<Rightarrow> Inl e
           | Inr ms \<Rightarrow> Inr (m # ms)))"

text \<open>
  \<open>reconcile_payments\<close>: \<open>data\<close> is the content of the store and \<open>payments\<close> what
  \<open>monitor_wallet\<close> returns. With no pending invoice it returns before it looks for
  payments.
\<close>

definition reconcile_payments ::
  "(string \<Rightarrow> real option) \<Rightarrow> invoice list \<Rightarrow> payment list \<Rightarrow> error + match_result list"
where
  "reconcile_payments float_of_text data payments =
     (let pending_invoices = load_pending_invoices data
      in if pending_invoices = [] then Inr []
         else if payments = [] then Inr []
         else match_all float_of_text pending_invoices payments)"

section \<open>Notions used in the statements\<close>

text \<open>A record of the store as the sample stores below have it.\<close>

abbreviation stored :: "string \<Rightarrow> string \<Rightarrow> pyval option \<Rightarrow> stamp option \<Rightarrow> invoice" where
  "stored name num amt ts \<equiv>
     \<lparr>supplier_name = Some name, invoice_number = Some num, total_amount = amt,
      vat_amount = None, line_items = None, timestamp = ts, status = Some ''pending'',
      flags = None\<rparr>"

text \<open>A candidate invoice with line items, each given by its \<open>total\<close>.\<close>

abbreviation itemized :: "pyval \<Rightarrow> pyval \<Rightarrow> pyval list \<Rightarrow> invoice" where
  "itemized amt vat totals \<equiv>
     \<lparr>supplier_name = Some ''Acme'', invoice_number = Some ''INV-7'', total_amount = Some amt,
      vat_amount = Some vat,
      line_items = Some (map (\<lambda>t. \<lparr>description = None, quantity = None, unit_price = None,
                                     total = Some t\<rparr>) totals),
      timestamp = None, status = None, flags = None\<rparr>"

text \<open>The inputs on which amount normalization cannot produce a negative number.\<close>

definition nonneg_input :: "pyval \<Rightarrow> bool" where
  "nonneg_input v =
     (case v of VNone \<Rightarrow> True | VNum r \<Rightarrow> 0 \<le> r | VStr t \<Rightarrow> CHR ''-'' \<notin> set t)"

text \<open>
  The reals within the range of the finite doubles: \<open>float\<close> of a decimal text rounds to
  the nearest double, and returns \<open>inf\<close> or \<open>-inf\<close> from \<open>2 ^ 1024 - 2 ^ 970\<close> on in
  absolute value.
\<close>

definition finite_double :: "real \<Rightarrow> bool" where
  "finite_double r = (\<bar>r\<bar> < 2 ^ 1024 - 2 ^ 970)"

text \<open>The inputs on which amount normalization stays within that range.\<close>

definition finite_input :: "pyval \<Rightarrow> bool" where
  "finite_input v =
     (case v of VNone \<Rightarrow> True | VNum r \<Rightarrow> finite_double r | VStr t \<Rightarrow> length t \<le> 308)"

text \<open>
  The window of the velocity detector as the code computes it: the timestamp is absent,
  or it is readable and fewer than 8 full days lie between it and \<open>now\<close>.
\<close>

definition recent_whole_days :: "int \<Rightarrow> invoice \<Rightarrow> bool" where
  "recent_whole_days now existing =
     (case timestamp existing of
        None \<Rightarrow> True
      | Some Unparseable \<Rightarrow> False
      | Some (Parsed t) \<Rightarrow> now - t < 8 * 86400000000)"

text \<open>
  The window of the velocity detector in the words of the specification: the timestamp
  lies within the last 7 days of \<open>now\<close>, both ends included. An absent timestamp reads as
  \<open>now\<close>.
\<close>

definition spec_within_last_7_days :: "int \<Rightarrow> invoice \<Rightarrow> bool" where
  "spec_within_last_7_days now existing =
     (case timestamp existing of
        None \<Rightarrow> True
      | Some Unparseable \<Rightarrow> False
      | Some (Parsed t) \<Rightarrow> now - 7 * 86400000000 \<le> t \<and> t \<le> now)"

definition spec_velocity :: "invoice list \<Rightarrow> int \<Rightarrow> invoice \<Rightarrow> finding option" where
  "spec_velocity invoices_db now invoice =
     (let supplier = lower (get_str (supplier_name invoice));
          n = length (filter (\<lambda>existing. lower (get_str (supplier_name existing)) = supplier
                                        \<and> spec_within_last_7_days now existing) invoices_db)
      in if n \<ge> 5 then Some (velocity_finding n supplier) else None)"

text \<open>The comparison of supplier names in the detectors.\<close>

definition same_supplier :: "string \<Rightarrow> invoice \<Rightarrow> bool" where
  "same_supplier supplier existing = (lower (get_str (supplier_name existing)) = supplier)"

text \<open>Sample stores: \<open>k\<close> records of one supplier with the same timestamp field.\<close>

abbreviation acme_records :: "nat \<Rightarrow> stamp option \<Rightarrow> invoice list" where
  "acme_records k ts \<equiv>
     map (\<lambda>i. stored ''Acme Ltd'' ''INV'' (Some (VNum (10 + real i))) ts) [0 ..< k]"

text \<open>
  The pending invoices on whose total \<open>float(invoice.get('total_amount', 0))\<close> does not
  raise: the total is absent, a number, or a text that \<open>float\<close> reads; and the total as
  it is read.
\<close>

definition readable_total :: "(string \<Rightarrow> real option) \<Rightarrow> invoice \<Rightarrow> bool" where
  "readable_total float_of_text invoice =
     (case total_amount invoice of
        None \<Rightarrow> True
      | Some VNone \<Rightarrow> False
      | Some (VNum r) \<Rightarrow> True
      | Some (VStr t) \<Rightarrow> float_of_text t \<noteq> None)"

definition amount_of :: "(string \<Rightarrow> real option) \<Rightarrow> invoice \<Rightarrow> real" where
  "amount_of float_of_text invoice =
     (case total_amount invoice of
        None \<Rightarrow> 0
      | Some VNone \<Rightarrow> 0
      | Some (VNum r) \<Rightarrow> r
      | Some (VStr t) \<Rightarrow> (case float_of_text t of None \<Rightarrow> 0 | Some r \<Rightarrow> r))"

text \<open>
  The matcher in the words of the specification: the first pending invoice, in the
  given order, that satisfies the exact rule or the partial rule, reported as an exact
  match if the exact rule holds for it and as a partial match otherwise.
\<close>

definition spec_match ::
  "(string \<Rightarrow> real option) \<Rightarrow> invoice list \<Rightarrow> payment \<Rightarrow> real \<Rightarrow> match_result"
where
  "spec_match float_of_text pending p tolerance =
     (case find (\<lambda>invoice. \<bar>pay_value p - amount_of float_of_text invoice\<bar> \<le> tolerance
                          \<or> (0 < pay_value p \<and> pay_value p < amount_of float_of_text invoice)) pending of
        None \<Rightarrow>
          \<lparr>matched = False, m_invoice = None, m_payment = p, match_type = None,
           difference = None, paid_percentage = None,
           m_reason = Some ''No matching invoice found''\<rparr>
      | Some invoice \<Rightarrow>
          if \<bar>pay_value p - amount_of float_of_text invoice\<bar> \<le> tolerance
          then \<lparr>matched = True, m_invoice = Some invoice, m_payment = p,
                match_type = Some ''exact'', difference = Some 0, paid_percentage = None,
                m_reason = None\<rparr>
          else \<lparr>matched = True, m_invoice = Some invoice, m_payment = p,
                match_type = Some ''partial'',
                difference = Some (amount_of float_of_text invoice - pay_value p),
                paid_percentage = Some (pay_value p / amount_of float_of_text invoice * 100),
                m_reason = None\<rparr>)"

text \<open>A payment of the given value, and a pending invoice of the given total.\<close>

abbreviation paying :: "real \<Rightarrow> payment" where
  "paying v \<equiv>
     \<lparr>tx_hash = ''0xmock123abc'', sender = ''0x1234'', recipient = ''0x5678'', pay_value = v,
      block_number = 12345678\<rparr>"

abbreviation pending_of :: "string \<Rightarrow> real \<Rightarrow> invoice" where
  "pending_of num amt \<equiv> stored ''Acme'' num (Some (VNum amt)) None"

text \<open>The records of a supplier: the store records with its name, case ignored.\<close>

definition supplier_records :: "invoice list \<Rightarrow> string \<Rightarrow> invoice list" where
  "supplier_records invoices_db name =
     filter (\<lambda>invoice. lower (get_str (supplier_name invoice)) = lower name) invoices_db"

text \<open>
  The three risk factors in the words of the specification. Factor 1: more than 30% of
  the records carry at least one flag. Factor 2: there are at least two records and the
  sample standard deviation of the normalized amounts exceeds half their mean.
\<close>

definition flagged_factor :: "invoice list \<Rightarrow> bool" where
  "flagged_factor recs = (real (length (filter has_flags recs)) > 0.3 * real (length recs))"

definition variance_factor :: "invoice list \<Rightarrow> bool" where
  "variance_factor recs =
     (let amounts = map (\<lambda>invoice. safe_float (py_get (total_amount invoice)) 0) recs
      in length recs \<ge> 2 \<and> stdev amounts > 0.5 * mean amounts)"

text \<open>
  Factor 3 in the words of the specification: more than 10 records, and the mean gap
  between consecutive timestamps, sorted by time, is under 3 days. The gaps are exact
  differences, in microseconds.
\<close>

definition gaps :: "int list \<Rightarrow> int list" where
  "gaps dates = map (\<lambda>i. dates ! (i + 1) - dates ! i) [0 ..< length dates - 1]"

definition spec_frequency_factor :: "invoice list \<Rightarrow> bool" where
  "spec_frequency_factor recs =
     (let dates = sort (collect_dates recs)
      in length recs > 10 \<and> length dates \<ge> 2
         \<and> real_of_int (sum_list (gaps dates)) / real (length dates - 1)
             < 3 * 86400000000)"

text \<open>
  Factor 3 as the code computes it: every gap is first cut down to whole days, and the
  mean of these whole numbers is under 3.
\<close>

definition whole_day_frequency_factor :: "invoice list \<Rightarrow> bool" where
  "whole_day_frequency_factor recs =
     (let dates = sort (collect_dates recs)
      in length recs > 10 \<and> length dates \<ge> 2
         \<and> real_of_int (sum_list (day_gaps dates)) / real (length dates - 1) < 3)"

text \<open>The level of a rounded score.\<close>

definition level_of :: "int \<Rightarrow> string" where
  "level_of s = (if s < 30 then ''low'' else if s < 60 then ''medium'' else ''high'')"

text \<open>
  The score and level of the specification, for a given third factor: 50 and medium
  for a supplier without records; otherwise the share of triggered factors among the
  applicable ones, times 100 and rounded, where factor 2 is applicable only with at
  least two records.
\<close>

definition scored_by :: "(invoice list \<Rightarrow> bool) \<Rightarrow> invoice list \<Rightarrow> string \<Rightarrow> int \<times> string" where
  "scored_by frequency invoices_db name =
     (let recs = supplier_records invoices_db name
      in if recs = [] then (50, ''medium'')
         else (let triggered_factors =
                     of_bool (flagged_factor recs) + of_bool (variance_factor recs)
                     + of_bool (frequency recs);
                   applicable_factors = (if length recs \<ge> 2 then 3 else 2);
                   s = py_round (real triggered_factors / real applicable_factors * 100)
               in (s, level_of s)))"

text \<open>
  A store of eleven records of one supplier, with equal amounts and no flags. The
  timestamps are given in half days: the first gap is two and a half days, the nine
  others are three and a half days.
\<close>

abbreviation half_days :: "int \<Rightarrow> stamp option" where
  "half_days h \<equiv> Some (Parsed (h * 43200000000))"

abbreviation eleven_records :: "invoice list" where
  "eleven_records \<equiv>
     map (\<lambda>h. stored ''Acme Ltd'' ''INV'' (Some (VNum 100)) (half_days h))
       [0, 5, 12, 19, 26, 33, 40, 47, 54, 61, 68]"

text \<open>Eleven records of one supplier, of which only the first has a timestamp.\<close>

abbreviation one_dated_record :: "invoice list" where
  "one_dated_record \<equiv>
     stored ''Acme Ltd'' ''INV'' (Some (VNum 100)) (half_days 0)
     # replicate 10 (stored ''Acme Ltd'' ''INV'' (Some (VNum 100)) None)"

section \<open>The round-number detector\<close>

lemma py_mod_zero_iff:
  assumes "y > 0"
  shows "py_mod z y = 0 \<longleftrightarrow> (\<exists>k::int. z = y * of_int k)"
proof
  assume "py_mod z y = 0"
  then have "z = y * of_int \<lfloor>z / y\<rfloor>" by (simp add: py_mod_def)
  then show "\<exists>k::int. z = y * of_int k" ..
next
  assume "\<exists>k::int. z = y * of_int k"
  then obtain k :: int where k: "z = y * of_int k" ..
  with assms have "z / y = of_int k" by simp
  then have "\<lfloor>z / y\<rfloor> = k" by simp
  with k show "py_mod z y = 0" by (simp add: py_mod_def)
qed

text \<open>
  Claim C6. The round-number detector returns a finding of severity medium exactly when
  the normalized amount is greater than 1000 and a whole multiple of 1000, a finding of
  severity low exactly when the amount lies strictly between 100 and 1000 and is a
  whole multiple of 100, and no finding in every other case. Every finding it returns
  is one of these two, with that severity under that condition; the two conditions
  exclude each other, and an amount of at most 100 is never flagged.
\<close>

theorem round_number_detector:
  "(let amount = safe_float (py_get (total_amount invoice)) 0;
        result = detect_round_number_fraud invoice
    in (result = Some \<lparr>ftype = None, severity = ''medium'', fmatch = None,
                        freason = SuspiciouslyRound amount, fcount = None, discrepancy = None\<rparr>
          \<longleftrightarrow> amount > 1000 \<and> (\<exists>k::int. amount = 1000 * of_int k))
     \<and> (result = Some \<lparr>ftype = None, severity = ''low'', fmatch = None,
                         freason = RoundNumber amount, fcount = None, discrepancy = None\<rparr>
          \<longleftrightarrow> 100 < amount \<and> amount < 1000 \<and> (\<exists>k::int. amount = 100 * of_int k))
     \<and> (result = None
          \<longleftrightarrow> \<not> (amount > 1000 \<and> (\<exists>k::int. amount = 1000 * of_int k))
            \<and> \<not> (100 < amount \<and> amount < 1000 \<and> (\<exists>k::int. amount = 100 * of_int k)))
     \<and> (\<forall>f. result = Some f \<longrightarrow>
            (severity f = ''medium'' \<and> amount > 1000 \<and> (\<exists>k::int. amount = 1000 * of_int k))
          \<or> (severity f = ''low'' \<and> 100 < amount \<and> amount < 1000
               \<and> (\<exists>k::int. amount = 100 * of_int k)))
     \<and> (amount \<le> 100 \<longrightarrow> result = None))"
  unfolding Let_def detect_round_number_fraud_def
  using py_mod_zero_iff [of 1000 "safe_float (py_get (total_amount invoice)) 0"]
        py_mod_zero_iff [of 100 "safe_float (py_get (total_amount invoice)) 0"]
  by (auto simp: round_finding_def)

text \<open>
  The amount 100 is not flagged, 2000 (here as the text \<open>2,000.00\<close>) is flagged medium,
  300 is flagged low, and 1234 and 250, which are not whole multiples, are not flagged.
\<close>

theorem round_number_detector_witness:
  "safe_float (py_get (total_amount (stored ''Acme'' ''INV-1'' (Some (VNum 100)) None))) 0 \<le> 100
   \<and> detect_round_number_fraud (stored ''Acme'' ''INV-1'' (Some (VNum 100)) None) = None
   \<and> detect_round_number_fraud (stored ''Acme'' ''INV-2'' (Some (VStr ''2,000.00'')) None)
       = Some \<lparr>ftype = None, severity = ''medium'', fmatch = None,
                freason = SuspiciouslyRound 2000, fcount = None, discrepancy = None\<rparr>
   \<and> detect_round_number_fraud (stored ''Acme'' ''INV-3'' (Some (VNum 300)) None)
       = Some \<lparr>ftype = None, severity = ''low'', fmatch = None,
                freason = RoundNumber 300, fcount = None, discrepancy = None\<rparr>
   \<and> detect_round_number_fraud (stored ''Acme'' ''INV-4'' (Some (VNum 1234)) None) = None
   \<and> detect_round_number_fraud (stored ''Acme'' ''INV-5'' (Some (VNum 250)) None) = None"
proof -
  have two: "\<exists>k::int. (2000::real) = 1000 * of_int k"
    by (rule exI [of _ 2]) simp
  have three: "\<exists>k::int. (300::real) = 100 * of_int k"
    by (rule exI [of _ 3]) simp
  have no1: "\<not> (\<exists>k::int. (1234::real) = 1000 * of_int k)"
  proof
    assume "\<exists>k::int. (1234::real) = 1000 * of_int k"
    then obtain k :: int where "(1234::real) = 1000 * of_int k" ..
    then have "real_of_int 1234 = real_of_int (1000 * k)" by simp
    then have "(1234::int) = 1000 * k" by (simp only: of_int_eq_iff)
    then have "(1234::int) mod 1000 = (1000 * k) mod 1000" by (rule arg_cong)
    then show False by simp
  qed
  have no2: "\<not> (\<exists>k::int. (250::real) = 100 * of_int k)"
  proof
    assume "\<exists>k::int. (250::real) = 100 * of_int k"
    then obtain k :: int where "(250::real) = 100 * of_int k" ..
    then have "real_of_int 250 = real_of_int (100 * k)" by simp
    then have "(250::int) = 100 * k" by (simp only: of_int_eq_iff)
    then have "(250::int) mod 100 = (100 * k) mod 100" by (rule arg_cong)
    then show False by simp
  qed
  have amount: "safe_float (py_get (Some (VStr ''2,000.00''))) 0 = 2000"
    by (simp add: safe_float_def py_get_def strip_def remove_char_def is_space_def is_digit_def
          match_number_def float_of_match_def digits_val_def digit_val_def)
  have none100: "detect_round_number_fraud (stored ''Acme'' ''INV-1'' (Some (VNum 100)) None) = None"
    using round_number_detector [of "stored ''Acme'' ''INV-1'' (Some (VNum 100)) None"]
    by (simp add: Let_def safe_float_def py_get_def)
  have medium: "detect_round_number_fraud (stored ''Acme'' ''INV-2'' (Some (VStr ''2,000.00'')) None)
       = Some \<lparr>ftype = None, severity = ''medium'', fmatch = None,
                freason = SuspiciouslyRound 2000, fcount = None, discrepancy = None\<rparr>"
    using round_number_detector [of "stored ''Acme'' ''INV-2'' (Some (VStr ''2,000.00'')) None"]
          two amount
    by (simp add: Let_def)
  have low: "detect_round_number_fraud (stored ''Acme'' ''INV-3'' (Some (VNum 300)) None)
       = Some \<lparr>ftype = None, severity = ''low'', fmatch = None,
                freason = RoundNumber 300, fcount = None, discrepancy = None\<rparr>"
    using round_number_detector [of "stored ''Acme'' ''INV-3'' (Some (VNum 300)) None"] three
    by (simp add: Let_def safe_float_def py_get_def)
  have none1234: "detect_round_number_fraud (stored ''Acme'' ''INV-4'' (Some (VNum 1234)) None) = None"
    using round_number_detector [of "stored ''Acme'' ''INV-4'' (Some (VNum 1234)) None"] no1
    by (simp add: Let_def safe_float_def py_get_def)
  have none250: "detect_round_number_fraud (stored ''Acme'' ''INV-5'' (Some (VNum 250)) None) = None"
    using round_number_detector [of "stored ''Acme'' ''INV-5'' (Some (VNum 250)) None"] no2
    by (simp add: Let_def safe_float_def py_get_def)
  show ?thesis
    using none100 medium low none1234 none250 by (simp add: safe_float_def py_get_def)
qed

section \<open>The calculation-mismatch detector\<close>

text \<open>
  Claim C7. For an invoice whose line items are missing or empty the detector returns
  no finding. For an invoice with line items it returns a finding exactly when the
  normalized total differs from the sum of the normalized item totals plus the
  normalized VAT by more than 1.0 in absolute value; that finding has severity high and
  carries the signed discrepancy, the total minus the expected total.
\<close>

theorem calculation_mismatch_detector:
  "(let items = (case line_items invoice of None \<Rightarrow> [] | Some l \<Rightarrow> l);
        tot = safe_float (py_get (total_amount invoice)) 0;
        vat = safe_float (py_get (vat_amount invoice)) 0;
        expected_total = (\<Sum>item\<leftarrow>items. safe_float (py_get (total item)) 0) + vat;
        result = detect_calculation_anomalies invoice
    in (items = [] \<longrightarrow> result = None)
     \<and> (items \<noteq> [] \<longrightarrow>
          ((\<exists>f. result = Some f) \<longleftrightarrow> \<bar>tot - expected_total\<bar> > 1)
        \<and> (\<forall>f. result = Some f \<longrightarrow>
               severity f = ''high''
             \<and> discrepancy f = Some (tot - expected_total))))"
  by (simp add: detect_calculation_anomalies_def Let_def calculation_finding_def)

text \<open>
  Line items of 50 and 30 with a VAT of 20: a declared total of 102 is flagged with the
  discrepancy 2, a declared total of 100.5 is not, and neither is an invoice without
  line items.
\<close>

theorem calculation_mismatch_detector_witness:
  "(\<exists>f. detect_calculation_anomalies (itemized (VNum 102) (VNum 20) [VNum 50, VNum 30]) = Some f
        \<and> severity f = ''high'' \<and> discrepancy f = Some 2)
   \<and> detect_calculation_anomalies (itemized (VNum 100.5) (VNum 20) [VNum 50, VNum 30]) = None
   \<and> detect_calculation_anomalies (itemized (VNum 102) (VNum 20) []) = None"
  using calculation_mismatch_detector [of "itemized (VNum 102) (VNum 20) [VNum 50, VNum 30]"]
        calculation_mismatch_detector [of "itemized (VNum 100.5) (VNum 20) [VNum 50, VNum 30]"]
        calculation_mismatch_detector [of "itemized (VNum 102) (VNum 20) []"]
  by (simp add: Let_def safe_float_def py_get_def) force

section \<open>The duplicate detector\<close>

lemma keep_exact: "ftype (exact_duplicate num existing) = Some ''exact_duplicate''"
  by (simp add: exact_duplicate_def)

lemma drop_suspicious: "ftype (suspicious_duplicate existing) \<noteq> Some ''exact_duplicate''"
  by (simp add: suspicious_duplicate_def)

lemma filter_duplicates_of:
  "filter (\<lambda>g. ftype g = Some ''exact_duplicate'')
     (duplicates_of now supplier amount num existing) =
   (if invoice_number existing = Some num then [exact_duplicate num existing] else [])"
proof -
  let ?Q = "\<lambda>g. ftype g = Some ''exact_duplicate''"
  have a: "filter ?Q (if c then [exact_duplicate num existing] else []) =
        (if c then [exact_duplicate num existing] else [])" for c
    by (cases c) (simp_all add: keep_exact)
  have b: "filter ?Q (if c then [suspicious_duplicate existing] else []) = []" for c
    by (cases c) (simp_all add: drop_suspicious)
  have c: "filter ?Q (case existing_date now existing of None \<Rightarrow> []
              | Some d \<Rightarrow> if \<bar>days (now - d)\<bar> \<le> 30
                         then [suspicious_duplicate existing] else []) = []"
    by (cases "existing_date now existing") (simp_all only: option.case b filter.simps)
  have d: "filter ?Q (if c1 then (if c2 then zs else []) else []) =
        (if c1 \<and> c2 then filter ?Q zs else [])" for c1 c2 zs
    by (cases c1; cases c2) simp_all
  show ?thesis
    unfolding duplicates_of_def Let_def filter_append a d c by simp
qed

lemma filter_duplicates_loop:
  "filter (\<lambda>g. ftype g = Some ''exact_duplicate'')
     (duplicates_loop now supplier amount num db) =
   map (exact_duplicate num) (filter (\<lambda>existing. invoice_number existing = Some num) db)"
  by (induction db) (simp_all add: filter_duplicates_of)

text \<open>
  Claim C4. The findings of type \<open>exact_duplicate\<close> that the duplicate detector emits are,
  in the order of the store, one for each store record whose invoice number equals the
  candidate's (an absent candidate number reads as the empty text); each has severity
  critical and refers to the record it matched. No amount occurs in the condition.
\<close>

theorem exact_duplicate_findings:
  "(let invoice_num = get_str (invoice_number invoice)
    in filter (\<lambda>g. ftype g = Some ''exact_duplicate'')
         (detect_duplicate_invoices invoices_db now invoice)
       = map (exact_duplicate invoice_num)
           (filter (\<lambda>existing. invoice_number existing = Some invoice_num) invoices_db)
     \<and> severity (exact_duplicate invoice_num existing) = ''critical''
     \<and> ftype (exact_duplicate invoice_num existing) = Some ''exact_duplicate''
     \<and> fmatch (exact_duplicate invoice_num existing) = Some existing)"
  by (simp add: detect_duplicate_invoices_def Let_def filter_duplicates_loop exact_duplicate_def)

text \<open>
  The example of the specification: the candidate \<open>INV-1\<close> of amount 100 against a store
  that holds \<open>INV-1\<close> with amount 999, from another supplier.
\<close>

theorem exact_duplicate_findings_witness:
  "filter (\<lambda>g. ftype g = Some ''exact_duplicate'')
     (detect_duplicate_invoices
        [stored ''Other'' ''INV-1'' (Some (VNum 999)) None,
         stored ''Acme'' ''INV-2'' (Some (VNum 100)) None]
        0 (stored ''Acme'' ''INV-1'' (Some (VNum 100)) None))
   = [\<lparr>ftype = Some ''exact_duplicate'', severity = ''critical'',
       fmatch = Some (stored ''Other'' ''INV-1'' (Some (VNum 999)) None),
       freason = DuplicateInvoiceNumber ''INV-1'', fcount = None, discrepancy = None\<rparr>]"
  using exact_duplicate_findings
          [of "stored ''Acme'' ''INV-1'' (Some (VNum 100)) None"
              "[stored ''Other'' ''INV-1'' (Some (VNum 999)) None,
                stored ''Acme'' ''INV-2'' (Some (VNum 100)) None]" 0]
  by (simp add: Let_def get_str_def exact_duplicate_def)

section \<open>Amount normalization\<close>

lemma re_search_no_digit: "\<not> list_ex is_digit s \<Longrightarrow> re_search s = None"
proof (induction s)
  case Nil
  show ?case by simp
next
  case (Cons c cs)
  then have "\<not> is_digit c" and rest: "\<not> list_ex is_digit cs" by simp_all
  moreover have "cs = [] \<or> \<not> is_digit (hd cs)"
    using rest by (cases cs) simp_all
  ultimately show ?case using Cons.IH by auto
qed

lemma set_strip: "set (strip t) \<subseteq> set t"
proof
  fix c assume "c \<in> set (strip t)"
  then have "c \<in> set (dropWhile is_space (rev (dropWhile is_space t)))"
    by (simp add: strip_def)
  then have "c \<in> set (rev (dropWhile is_space t))" by (rule set_dropWhileD)
  then have "c \<in> set (dropWhile is_space t)" by simp
  then show "c \<in> set t" by (rule set_dropWhileD)
qed

lemma set_cleaned: "set (remove_char CHR '' '' (remove_char CHR '','' (strip t))) \<subseteq> set t"
  using set_strip [of t] by (auto simp: remove_char_def)

lemma no_digit_cleaned:
  assumes "\<not> list_ex is_digit t"
  shows "\<not> list_ex is_digit (remove_char CHR '' '' (remove_char CHR '','' (strip t)))"
  using assms set_cleaned [of t] unfolding list_ex_iff by blast

lemma safe_float_unparseable:
  "unparseable field \<Longrightarrow> safe_float (py_get field) dflt = dflt"
  by (cases "py_get field")
     (simp_all add: unparseable_def safe_float_def Let_def re_search_no_digit no_digit_cleaned)

lemma hd_match_number: "is_digit c \<Longrightarrow> match_number (c # cs) \<noteq> [] \<and> hd (match_number (c # cs)) = c"
  by (simp add: match_number_def Let_def split: list.split)

lemma re_search_no_minus:
  "re_search s = Some tok \<Longrightarrow> CHR ''-'' \<notin> set s \<Longrightarrow> tok \<noteq> [] \<and> hd tok \<noteq> CHR ''-''"
proof (induction s)
  case Nil
  then show ?case by simp
next
  case (Cons c cs)
  from Cons.prems(2) have c: "c \<noteq> CHR ''-''" and cs: "CHR ''-'' \<notin> set cs" by auto
  show ?case
  proof (cases "is_digit c")
    case True
    with c Cons.prems(1) have "tok = match_number (c # cs)" by simp
    with hd_match_number [OF True, of cs] c show ?thesis by simp
  next
    case False
    with c Cons.prems(1) have "re_search cs = Some tok" by simp
    then show ?thesis using cs by (rule Cons.IH)
  qed
qed

lemma float_of_match_nonneg:
  assumes "float_of_match tok = Some r" and "tok = [] \<or> hd tok \<noteq> CHR ''-''"
  shows "0 \<le> r"
proof -
  from assms(2) have "\<not> (tok \<noteq> [] \<and> hd tok = CHR ''-'')" by blast
  with assms(1) show ?thesis
    by (auto simp: float_of_match_def Let_def split: if_splits option.splits)
qed

lemma safe_float_nonneg:
  assumes "nonneg_input v"
  shows "0 \<le> safe_float v 0"
proof (cases v)
  case VNone
  then show ?thesis by (simp add: safe_float_def)
next
  case (VNum r)
  with assms show ?thesis by (simp add: safe_float_def nonneg_input_def)
next
  case (VStr t)
  let ?s = "remove_char CHR '' '' (remove_char CHR '','' (strip t))"
  from assms VStr set_cleaned [of t] have nom: "CHR ''-'' \<notin> set ?s"
    by (auto simp: nonneg_input_def)
  show ?thesis
  proof (cases "re_search ?s")
    case None
    with VStr show ?thesis by (simp add: safe_float_def)
  next
    case (Some tok)
    from re_search_no_minus [OF Some nom] have tok: "tok = [] \<or> hd tok \<noteq> CHR ''-''" by blast
    show ?thesis
    proof (cases "float_of_match tok")
      case None
      with Some VStr show ?thesis by (simp add: safe_float_def)
    next
      case (Some r)
      with float_of_match_nonneg [OF Some tok] \<open>re_search ?s = Some tok\<close> VStr
      show ?thesis by (simp add: safe_float_def)
    qed
  qed
qed

lemma digit_val_le: "is_digit c \<Longrightarrow> digit_val c \<le> 9"
  by (auto simp: is_digit_def digit_val_def)

lemma foldl_digits_bound:
  "list_all is_digit ds \<Longrightarrow>
   foldl (\<lambda>n c. 10 * n + digit_val c) a ds + 1 \<le> (a + 1) * 10 ^ length ds"
proof (induction ds arbitrary: a)
  case Nil
  show ?case by simp
next
  case (Cons c cs)
  then have c: "digit_val c \<le> 9" and cs: "list_all is_digit cs"
    by (simp_all add: digit_val_le)
  have "foldl (\<lambda>n c. 10 * n + digit_val c) (10 * a + digit_val c) cs + 1
        \<le> (10 * a + digit_val c + 1) * 10 ^ length cs"
    using cs by (rule Cons.IH)
  also have "\<dots> \<le> (10 * a + 10) * 10 ^ length cs"
    using c by (intro mult_right_mono) simp_all
  finally show ?case by (simp add: algebra_simps)
qed

lemma digits_val_bound: "list_all is_digit ds \<Longrightarrow> digits_val ds < 10 ^ length ds"
  using foldl_digits_bound [of ds 0] by (simp add: digits_val_def)

lemma list_all_takeWhile: "list_all P (takeWhile P xs)"
  by (induction xs) simp_all

lemma float_of_match_bound:
  assumes "float_of_match tok = Some r"
  shows "\<bar>r\<bar> < 10 ^ length tok"
proof -
  define body where "body = (if tok \<noteq> [] \<and> hd tok = CHR ''-'' then tl tok else tok)"
  define ip where "ip = takeWhile is_digit body"
  define rest where "rest = dropWhile is_digit body"
  define fp where "fp = (case rest of [] \<Rightarrow> Some []
      | c # cs \<Rightarrow> if c = CHR ''.'' \<and> list_all is_digit cs then Some cs else None)"
  define sgn :: real where "sgn = (if tok \<noteq> [] \<and> hd tok = CHR ''-'' then - 1 else 1)"
  have "float_of_match tok =
      (if ip = [] then None
       else case fp of None \<Rightarrow> None
            | Some fs \<Rightarrow> Some (sgn * (real (digits_val ip) + real (digits_val fs) / 10 ^ length fs)))"
    unfolding float_of_match_def Let_def body_def ip_def rest_def fp_def sgn_def ..
  with assms obtain fs' where fp: "fp = Some fs'"
    and r: "r = sgn * (real (digits_val ip) + real (digits_val fs') / 10 ^ length fs')"
    by (auto split: if_splits option.splits)
  have fs': "list_all is_digit fs'"
    using fp unfolding fp_def by (cases rest) (auto split: if_splits)
  have sgn: "sgn = 1 \<or> sgn = - 1" by (simp add: sgn_def)
  have "real (digits_val fs') < 10 ^ length fs'"
    using digits_val_bound [OF fs'] by (metis of_nat_less_iff of_nat_numeral of_nat_power)
  then have frac: "real (digits_val fs') / 10 ^ length fs' < 1" by simp
  have "digits_val ip + 1 \<le> 10 ^ length ip"
    using digits_val_bound [of ip] by (simp add: ip_def list_all_takeWhile)
  then have "real (digits_val ip + 1) \<le> real (10 ^ length ip)"
    by (simp only: of_nat_le_iff)
  then have int: "real (digits_val ip) + 1 \<le> 10 ^ length ip" by simp
  have "length ip \<le> length body"
    by (simp add: ip_def length_takeWhile_le)
  also have "\<dots> \<le> length tok" by (simp add: body_def)
  finally have "(10::real) ^ length ip \<le> 10 ^ length tok"
    by (intro power_increasing) simp_all
  with int frac have "real (digits_val ip) + real (digits_val fs') / 10 ^ length fs' < 10 ^ length tok"
    by linarith
  moreover have "0 \<le> real (digits_val ip) + real (digits_val fs') / 10 ^ length fs'" by simp
  moreover have "\<bar>r\<bar> = \<bar>real (digits_val ip) + real (digits_val fs') / 10 ^ length fs'\<bar>"
    using sgn unfolding r abs_mult by auto
  ultimately show ?thesis by linarith
qed

lemma length_match_number: "length (match_number s) \<le> length s"
proof -
  have "length (takeWhile is_digit s) \<le> length s" by (rule length_takeWhile_le)
  moreover have "dropWhile is_digit s = c # cs \<Longrightarrow>
      length (takeWhile is_digit s @ [c] @ takeWhile is_digit cs) \<le> length s" for c cs
  proof -
    assume d: "dropWhile is_digit s = c # cs"
    have "length s = length (takeWhile is_digit s) + length (dropWhile is_digit s)"
      by (metis length_append takeWhile_dropWhile_id)
    with d length_takeWhile_le [of is_digit cs] show ?thesis by simp
  qed
  ultimately show ?thesis
    by (simp add: match_number_def Let_def split: list.split)
qed

lemma re_search_length: "re_search s = Some tok \<Longrightarrow> length tok \<le> length s"
proof (induction s)
  case Nil
  then show ?case by simp
next
  case (Cons c cs)
  show ?case
  proof (cases "c = CHR ''-'' \<and> cs \<noteq> [] \<and> is_digit (hd cs)")
    case True
    with Cons.prems have "tok = c # match_number cs" by simp
    with length_match_number [of cs] show ?thesis by simp
  next
    case other: False
    show ?thesis
    proof (cases "is_digit c")
      case True
      with other Cons.prems have "tok = match_number (c # cs)" by auto
      with length_match_number [of "c # cs"] show ?thesis by simp
    next
      case False
      with other Cons.prems have "re_search cs = Some tok" by auto
      then have "length tok \<le> length cs" by (rule Cons.IH)
      then show ?thesis by simp
    qed
  qed
qed

lemma length_cleaned:
  "length (remove_char CHR '' '' (remove_char CHR '','' (strip t))) \<le> length t"
proof -
  have "length (strip t) \<le> length (dropWhile is_space t)"
    unfolding strip_def using length_dropWhile_le [of is_space "rev (dropWhile is_space t)"]
    by simp
  also have "\<dots> \<le> length t" by (rule length_dropWhile_le)
  finally have "length (strip t) \<le> length t" .
  moreover have "length (remove_char CHR '' '' (remove_char CHR '','' (strip t)))
      \<le> length (remove_char CHR '','' (strip t))"
    unfolding remove_char_def by (rule length_filter_le)
  moreover have "length (remove_char CHR '','' (strip t)) \<le> length (strip t)"
    unfolding remove_char_def by (rule length_filter_le)
  ultimately show ?thesis by linarith
qed

lemma small_power: "n \<le> 308 \<Longrightarrow> (10::real) ^ n < 2 ^ 1024 - 2 ^ 970"
proof -
  assume "n \<le> 308"
  then have "(10::real) ^ n \<le> 10 ^ 308" by (intro power_increasing) simp_all
  also have "(10::real) ^ 308 < 2 ^ 1024 - 2 ^ 970" by simp
  finally show ?thesis .
qed

lemma safe_float_finite:
  assumes "finite_input v"
  shows "finite_double (safe_float v 0)"
proof (cases v)
  case VNone
  then show ?thesis by (simp add: safe_float_def finite_double_def)
next
  case (VNum r)
  with assms show ?thesis by (simp add: safe_float_def finite_input_def)
next
  case (VStr t)
  let ?s = "remove_char CHR '' '' (remove_char CHR '','' (strip t))"
  from assms VStr have len: "length ?s \<le> 308"
    using length_cleaned [of t] by (simp add: finite_input_def)
  show ?thesis
  proof (cases "re_search ?s")
    case None
    with VStr show ?thesis by (simp add: safe_float_def finite_double_def)
  next
    case (Some tok)
    then have tok: "length tok \<le> 308" using re_search_length [of ?s tok] len by linarith
    show ?thesis
    proof (cases "float_of_match tok")
      case None
      with Some VStr show ?thesis by (simp add: safe_float_def finite_double_def)
    next
      case (Some r)
      from float_of_match_bound [OF Some] small_power [OF tok]
      have "\<bar>r\<bar> < 2 ^ 1024 - 2 ^ 970" by linarith
      with Some \<open>re_search ?s = Some tok\<close> VStr show ?thesis
        by (simp add: safe_float_def finite_double_def)
    qed
  qed
qed

text \<open>
  Claim C9, as stated: the result of amount normalization is a non-negative finite
  number. It is negative for a text whose first digits follow a minus sign, and for a
  text of 310 digits it is beyond the range of the finite doubles, where \<open>float\<close>
  returns \<open>inf\<close>.
\<close>

theorem safe_float_negative_counterexample:
  "\<not> (0 \<le> safe_float (VStr ''EUR -12.50'') 0)
   \<and> \<not> finite_double (safe_float (VStr ''1000000000000000000000000000000000000000000000000000000000000000000000000000000000000000000000000000000000000000000000000000000000000000000000000000000000000000000000000000000000000000000000000000000000000000000000000000000000000000000000000000000000000000000000000000000000000000000000000000000000000000000000'') 0)"
  by (simp add: finite_double_def safe_float_def strip_def remove_char_def is_space_def
        is_digit_def match_number_def float_of_match_def digits_val_def digit_val_def)

text \<open>
  Claim C9, amended. Amount normalization returns the default 0.0 for an absent value
  and the number itself for a number. Its result is non-negative whenever the input is
  absent, a non-negative number or a text without a minus sign, and it lies within the
  range of the finite doubles whenever the input is absent, a number within that range
  or a text of at most 308 characters.
\<close>

theorem safe_float_sign:
  "safe_float VNone 0 = 0
   \<and> safe_float (VNum r) 0 = r
   \<and> (nonneg_input v \<longrightarrow> 0 \<le> safe_float v 0)
   \<and> (finite_input v \<longrightarrow> finite_double (safe_float v 0))"
  using safe_float_nonneg [of v] safe_float_finite [of v] by (simp add: safe_float_def)

theorem safe_float_sign_witness:
  "nonneg_input (VStr ''$1,500.00'') \<and> finite_input (VStr ''$1,500.00'')
   \<and> 0 \<le> safe_float (VStr ''$1,500.00'') 0
   \<and> finite_double (safe_float (VStr ''$1,500.00'') 0)"
  using safe_float_sign [of 0 "VStr ''$1,500.00''"]
  by (simp add: nonneg_input_def finite_input_def)

section \<open>Unparseable amounts in the analysis\<close>

lemma no_low_duplicates_of:
  "list_all (\<lambda>f. severity f \<noteq> ''low'') (duplicates_of now supplier amount num existing)"
proof -
  let ?Q = "\<lambda>f. severity f \<noteq> ''low''"
  have a: "list_all ?Q (if c then [exact_duplicate num existing] else [])" for c
    by (cases c) (simp_all add: exact_duplicate_def)
  have b: "list_all ?Q (if c then [suspicious_duplicate existing] else [])" for c
    by (cases c) (simp_all add: suspicious_duplicate_def)
  have c: "list_all ?Q (case existing_date now existing of None \<Rightarrow> []
              | Some d \<Rightarrow> if \<bar>days (now - d)\<bar> \<le> 30 then [suspicious_duplicate existing] else [])"
    by (cases "existing_date now existing") (simp_all add: b)
  have d: "list_all ?Q zs \<Longrightarrow> list_all ?Q (if c1 then (if c2 then zs else []) else [])" for c1 c2 zs
    by (cases c1; cases c2) simp_all
  show ?thesis
    unfolding duplicates_of_def Let_def list_all_append using a d [OF c] by blast
qed

lemma no_low_duplicates_loop:
  "list_all (\<lambda>f. severity f \<noteq> ''low'') (duplicates_loop now supplier amount num db)"
  by (induction db) (simp_all add: no_low_duplicates_of)

lemma no_low_velocity:
  "list_all (\<lambda>f. severity f \<noteq> ''low'')
     (case detect_velocity_attack db now invoice of None \<Rightarrow> [] | Some f \<Rightarrow> [f])"
  by (cases "5 \<le> recent_count now (lower (get_str (supplier_name invoice))) 0 db")
     (simp_all add: detect_velocity_attack_def Let_def velocity_finding_def)

lemma no_low_calculation:
  "list_all (\<lambda>f. severity f \<noteq> ''low'')
     (case detect_calculation_anomalies invoice of None \<Rightarrow> [] | Some f \<Rightarrow> [f])"
  by (cases "detect_calculation_anomalies invoice")
     (auto simp: detect_calculation_anomalies_def Let_def calculation_finding_def
           split: if_splits)

lemma round_zero: "safe_float (py_get (total_amount invoice)) 0 = 0 \<Longrightarrow>
   detect_round_number_fraud invoice = None"
  by (simp add: detect_round_number_fraud_def)

lemma no_low_issues:
  assumes "safe_float (py_get (total_amount invoice)) 0 = 0"
  shows "list_all (\<lambda>f. severity f \<noteq> ''low'') (detected_issues db now invoice)"
  unfolding detected_issues_def list_all_append detect_duplicate_invoices_def Let_def
  using no_low_duplicates_loop no_low_velocity no_low_calculation round_zero [OF assms]
  by simp

text \<open>
  Claim C3, as stated: an invoice with an unparseable total gets a low-severity finding
  that records the ambiguity. The analysis of such an invoice against an empty store has
  no finding at all.
\<close>

theorem unparseable_amount_counterexample:
  "unparseable (total_amount (stored ''Acme'' ''INV-1'' (Some (VStr ''n/a'')) None))
   \<and> detected_issues [] 0 (stored ''Acme'' ''INV-1'' (Some (VStr ''n/a'')) None) = []"
  by (simp add: unparseable_def py_get_def is_digit_def detected_issues_def
        detect_duplicate_invoices_def detect_round_number_fraud_def
        detect_velocity_attack_def detect_calculation_anomalies_def Let_def
        safe_float_def strip_def remove_char_def is_space_def)

text \<open>
  Claim C3, amended. An absent or unparseable \<open>total_amount\<close> or \<open>vat_amount\<close> normalizes
  to 0.0. The analysis records nothing about it: for an invoice whose \<open>total_amount\<close> is
  absent or unparseable, no finding of the analysis has severity low, whatever the store.
\<close>

theorem unparseable_amount_is_zero:
  "(unparseable (total_amount invoice) \<longrightarrow>
      safe_float (py_get (total_amount invoice)) 0 = 0
    \<and> (\<forall>f \<in> set (detected_issues invoices_db now invoice). severity f \<noteq> ''low''))
   \<and> (unparseable (vat_amount invoice) \<longrightarrow> safe_float (py_get (vat_amount invoice)) 0 = 0)"
  using no_low_issues [of invoice invoices_db now]
        safe_float_unparseable [of "total_amount invoice" 0]
        safe_float_unparseable [of "vat_amount invoice" 0]
  unfolding list_all_iff by blast

theorem unparseable_amount_is_zero_witness:
  "unparseable (total_amount (stored ''Acme'' ''INV-1'' (Some (VStr ''n/a'')) None))
   \<and> unparseable (vat_amount (stored ''Acme'' ''INV-1'' (Some (VStr ''n/a'')) None))
   \<and> safe_float (py_get (total_amount (stored ''Acme'' ''INV-1'' (Some (VStr ''n/a'')) None))) 0 = 0
   \<and> safe_float (py_get (vat_amount (stored ''Acme'' ''INV-1'' (Some (VStr ''n/a'')) None))) 0 = 0"
  using unparseable_amount_is_zero [of "stored ''Acme'' ''INV-1'' (Some (VStr ''n/a'')) None" "[]" 0]
  by (simp add: unparseable_def py_get_def is_digit_def)

section \<open>The velocity detector\<close>

lemma days_le_iff: "days delta \<le> k \<longleftrightarrow> delta < (k + 1) * 86400000000"
proof -
  have "delta div 86400000000 \<le> k \<longleftrightarrow> delta div 86400000000 < k + 1" by linarith
  also have "\<dots> \<longleftrightarrow> delta < (k + 1) * 86400000000"
    by auto
  finally show ?thesis by (simp add: days_def)
qed

lemma days_zero: "days 0 = 0"
  by (simp add: days_def)

lemma recent_count_step:
  "recent_count now supplier n (existing # rest) =
     recent_count now supplier
       (if same_supplier supplier existing \<and> recent_whole_days now existing then n + 1 else n) rest"
proof (cases "timestamp existing")
  case None
  then show ?thesis
    by (simp add: same_supplier_def recent_whole_days_def existing_date_def days_zero)
next
  case (Some st)
  then show ?thesis
    using days_le_iff [of _ 7]
    by (cases st) (simp_all add: same_supplier_def recent_whole_days_def existing_date_def)
qed

lemma recent_count_eq:
  "recent_count now supplier n db =
     n + length (filter (\<lambda>existing. same_supplier supplier existing \<and> recent_whole_days now existing) db)"
proof (induction db arbitrary: n)
  case Nil
  show ?case by simp
next
  case (Cons existing rest)
  show ?case
    unfolding recent_count_step Cons.IH by simp
qed


text \<open>
  Claim C5, as stated: the detector counts the records whose timestamp lies within the
  last 7 days of now. Five records of the supplier that are seven and a half days old
  are none of them within the last 7 days, and the detector reports a count of 5.
\<close>

theorem velocity_window_counterexample:
  "detect_velocity_attack (acme_records 5 (Some (Parsed 0))) 648000000000
     (stored ''ACME Ltd'' ''INV-9'' (Some (VNum 10)) None)
     = Some (velocity_finding 5 ''acme ltd'')
   \<and> spec_velocity (acme_records 5 (Some (Parsed 0))) 648000000000
     (stored ''ACME Ltd'' ''INV-9'' (Some (VNum 10)) None) = None"
  by (simp add: detect_velocity_attack_def spec_velocity_def spec_within_last_7_days_def
        Let_def get_str_def lower_def lower_char_def existing_date_def days_def upt_rec
        velocity_finding_def)

text \<open>
  Claim C5, amended. The detector counts the store records whose supplier name equals
  the candidate's without regard to case and whose timestamp is absent or is readable
  and fewer than 8 full days before now (the whole days elapsed are at most 7, which
  holds for every later timestamp too). It returns a finding of severity high that
  reports the count if the count is at least 5, and no finding otherwise.
\<close>

theorem velocity_detector:
  "detect_velocity_attack invoices_db now invoice =
     (let supplier = lower (get_str (supplier_name invoice));
          n = length (filter (\<lambda>existing. lower (get_str (supplier_name existing)) = supplier
                                        \<and> recent_whole_days now existing) invoices_db)
      in if n \<ge> 5
         then Some \<lparr>ftype = None, severity = ''high'', fmatch = None,
                    freason = VelocityPattern n supplier, fcount = Some n, discrepancy = None\<rparr>
         else None)"
  by (simp add: detect_velocity_attack_def Let_def recent_count_eq same_supplier_def
        velocity_finding_def)

text \<open>Five records without a timestamp are reported, four are not.\<close>

theorem velocity_detector_witness:
  "detect_velocity_attack (acme_records 5 None) 0 (stored ''ACME Ltd'' ''INV-9'' None None)
     = Some \<lparr>ftype = None, severity = ''high'', fmatch = None,
              freason = VelocityPattern 5 ''acme ltd'', fcount = Some 5, discrepancy = None\<rparr>
   \<and> detect_velocity_attack (acme_records 4 None) 0 (stored ''ACME Ltd'' ''INV-9'' None None)
     = None"
  using velocity_detector [of "acme_records 5 None" 0 "stored ''ACME Ltd'' ''INV-9'' None None"]
        velocity_detector [of "acme_records 4 None" 0 "stored ''ACME Ltd'' ''INV-9'' None None"]
  by (simp add: Let_def get_str_def lower_def lower_char_def recent_whole_days_def upt_rec)

section \<open>Records without a timestamp\<close>

lemma duplicates_of_missing_timestamp:
  assumes "timestamp existing = None"
      and "lower (get_str (supplier_name existing)) = supplier"
      and "\<bar>amount - safe_float (py_get (total_amount existing)) 0\<bar> < 0.01"
  shows "duplicates_of now supplier amount num existing =
           (if invoice_number existing = Some num then [exact_duplicate num existing] else [])
           @ [suspicious_duplicate existing]"
  using assms by (simp add: duplicates_of_def Let_def existing_date_def days_zero)

lemma in_duplicates_loop:
  assumes "existing \<in> set db" and "g \<in> set (duplicates_of now supplier amount num existing)"
  shows "g \<in> set (duplicates_loop now supplier amount num db)"
  using assms(1)
proof (induction db)
  case Nil
  then show ?case by simp
next
  case (Cons e rest)
  show ?case
  proof (cases "existing = e")
    case True
    with assms(2) show ?thesis by (simp only: duplicates_loop.simps set_append Un_iff) blast
  next
    case False
    with Cons have "g \<in> set (duplicates_loop now supplier amount num rest)" by simp
    then show ?thesis by (simp only: duplicates_loop.simps set_append Un_iff) blast
  qed
qed


text \<open>
  Claim C10. For a store record without a timestamp field the detectors read the
  current time in its place. Such a record of the candidate's supplier is therefore
  always counted by the velocity detector, and, when its amount is within 0.01 of the
  candidate's, always reported as a suspicious duplicate.
\<close>

theorem missing_timestamp_counts_as_now:
  assumes "timestamp existing = None"
      and "lower (get_str (supplier_name existing)) = lower (get_str (supplier_name invoice))"
  shows "existing_date now existing = Some now
       \<and> recent_count now (lower (get_str (supplier_name invoice))) n (before @ existing # after)
           = recent_count now (lower (get_str (supplier_name invoice))) n (before @ after) + 1
       \<and> (existing \<in> set invoices_db
            \<and> \<bar>safe_float (py_get (total_amount invoice)) 0
                 - safe_float (py_get (total_amount existing)) 0\<bar> < 0.01
          \<longrightarrow> suspicious_duplicate existing \<in> set (detect_duplicate_invoices invoices_db now invoice))"
proof (intro conjI impI)
  show "existing_date now existing = Some now"
    using assms(1) by (simp add: existing_date_def)
next
  have "same_supplier (lower (get_str (supplier_name invoice))) existing"
    using assms(2) by (simp add: same_supplier_def)
  moreover have "recent_whole_days now existing"
    using assms(1) by (simp add: recent_whole_days_def)
  ultimately show "recent_count now (lower (get_str (supplier_name invoice))) n (before @ existing # after)
           = recent_count now (lower (get_str (supplier_name invoice))) n (before @ after) + 1"
    by (simp add: recent_count_eq)
next
  assume a: "existing \<in> set invoices_db
            \<and> \<bar>safe_float (py_get (total_amount invoice)) 0
                 - safe_float (py_get (total_amount existing)) 0\<bar> < 0.01"
  let ?supplier = "lower (get_str (supplier_name invoice))"
  let ?amount = "safe_float (py_get (total_amount invoice)) 0"
  let ?num = "get_str (invoice_number invoice)"
  have "duplicates_of now ?supplier ?amount ?num existing =
           (if invoice_number existing = Some ?num then [exact_duplicate ?num existing] else [])
           @ [suspicious_duplicate existing]"
    using assms a by (intro duplicates_of_missing_timestamp) simp_all
  then have "suspicious_duplicate existing \<in> set (duplicates_of now ?supplier ?amount ?num existing)"
    by (simp only: set_append Un_iff) simp
  with a have "suspicious_duplicate existing \<in> set (duplicates_loop now ?supplier ?amount ?num invoices_db)"
    by (intro in_duplicates_loop [of existing]) simp_all
  then show "suspicious_duplicate existing \<in> set (detect_duplicate_invoices invoices_db now invoice)"
    by (simp add: detect_duplicate_invoices_def Let_def)
qed

theorem missing_timestamp_counts_as_now_witness:
  "timestamp (stored ''Acme Ltd'' ''INV-1'' (Some (VNum 250)) None) = None
   \<and> lower (get_str (supplier_name (stored ''Acme Ltd'' ''INV-1'' (Some (VNum 250)) None)))
       = lower (get_str (supplier_name (stored ''ACME LTD'' ''INV-2'' (Some (VStr ''250.00'')) None)))
   \<and> recent_count 1000 ''acme ltd'' 0 [stored ''Acme Ltd'' ''INV-1'' (Some (VNum 250)) None] = 1
   \<and> suspicious_duplicate (stored ''Acme Ltd'' ''INV-1'' (Some (VNum 250)) None)
       \<in> set (detect_duplicate_invoices [stored ''Acme Ltd'' ''INV-1'' (Some (VNum 250)) None] 1000
                (stored ''ACME LTD'' ''INV-2'' (Some (VStr ''250.00'')) None))"
proof -
  have names: "lower (get_str (supplier_name (stored ''Acme Ltd'' ''INV-1'' (Some (VNum 250)) None)))
       = lower (get_str (supplier_name (stored ''ACME LTD'' ''INV-2'' (Some (VStr ''250.00'')) None)))"
    by (simp add: get_str_def lower_def lower_char_def)
  have name: "lower (get_str (supplier_name (stored ''ACME LTD'' ''INV-2'' (Some (VStr ''250.00'')) None)))
       = ''acme ltd''"
    by (simp add: get_str_def lower_def lower_char_def)
  have amount: "safe_float (py_get (Some (VStr ''250.00''))) 0 = 250"
    by (simp add: safe_float_def py_get_def strip_def remove_char_def is_space_def is_digit_def
          match_number_def float_of_match_def digits_val_def digit_val_def)
  have stamp: "timestamp (stored ''Acme Ltd'' ''INV-1'' (Some (VNum 250)) None) = None"
    by simp
  show ?thesis
    using missing_timestamp_counts_as_now [OF stamp names, of 1000 0 "[]" "[]"
            "[stored ''Acme Ltd'' ''INV-1'' (Some (VNum 250)) None]"]
          names name amount
    by (simp add: safe_float_def py_get_def days_def)
qed

section \<open>The reconciliation matcher\<close>

lemma invoice_total_numeric:
  "readable_total float_of_text invoice \<Longrightarrow> invoice_total_of float_of_text invoice = Inr (amount_of float_of_text invoice)"
  by (auto simp: readable_total_def amount_of_def invoice_total_of_def py_float_def
           split: option.splits pyval.splits)

lemma match_loop_spec:
  "list_all (readable_total float_of_text) pending \<Longrightarrow>
   match_loop float_of_text pending p (pay_value p) tolerance = Inr (spec_match float_of_text pending p tolerance)"
proof (induction pending)
  case Nil
  show ?case by (simp add: spec_match_def no_match_def)
next
  case (Cons invoice rest)
  then have total: "invoice_total_of float_of_text invoice = Inr (amount_of float_of_text invoice)"
    and IH: "match_loop float_of_text rest p (pay_value p) tolerance = Inr (spec_match float_of_text rest p tolerance)"
    by (simp_all add: invoice_total_numeric)
  show ?case
    by (simp add: total IH spec_match_def exact_match_def partial_match_def)
qed

lemma match_all_spec:
  "list_all (readable_total float_of_text) pending \<Longrightarrow>
   match_all float_of_text pending payments = Inr (map (\<lambda>q. spec_match float_of_text pending q 0.01) payments)"
  by (induction payments) (simp_all add: match_payment_to_invoice_def match_loop_spec)

text \<open>
  Claim C2, as stated: for every list of pending invoices the matcher returns a match
  result, and the reconciliation has one result per payment. On a pending invoice whose
  total is the text \<open>2,380.00\<close>, which \<open>float\<close> rejects, the matcher raises; and with no
  pending invoice the reconciliation returns no result for the payment.
\<close>

theorem first_fit_matcher_counterexample:
  "match_payment_to_invoice (\<lambda>t. None)
     [stored ''Acme'' ''INV-1'' (Some (VStr ''2,380.00'')) None] (paying 2380) 0.01
     = Inl ValueError
   \<and> reconcile_payments (\<lambda>t. None) [] [paying 2380] = Inr []"
  by (simp add: match_payment_to_invoice_def invoice_total_of_def py_float_def
        reconcile_payments_def load_pending_invoices_def)

text \<open>
  Claim C2, amended. On pending invoices whose totals \<open>float\<close> can read, the matcher
  returns, for every payment and tolerance, the result for the first pending invoice in
  the given order that satisfies the exact or the partial rule: an exact match with
  difference 0 when the payment differs from the total by at most the tolerance, else a
  partial match with the remaining difference and the paid percentage; and the
  unmatched result when no pending invoice satisfies a rule. The loop over the payments
  yields one result per payment, in their order, each computed against the whole list
  of pending invoices; so does \<open>reconcile_payments\<close> whenever an invoice is pending, and
  with no pending invoice it returns the empty list.
\<close>

theorem first_fit_matcher:
  assumes "list_all (readable_total float_of_text) pending"
  shows "match_payment_to_invoice float_of_text pending p tolerance
           = Inr (spec_match float_of_text pending p tolerance)
       \<and> match_all float_of_text pending payments
           = Inr (map (\<lambda>q. spec_match float_of_text pending q 0.01) payments)
       \<and> (load_pending_invoices data = pending \<longrightarrow>
            reconcile_payments float_of_text data payments
              = Inr (if pending = [] then []
                     else map (\<lambda>q. spec_match float_of_text pending q 0.01) payments))"
  using assms
  by (auto simp: match_payment_to_invoice_def match_loop_spec match_all_spec
        reconcile_payments_def Let_def)

text \<open>
  The examples of the specification, against one pending invoice of 100: the payment
  100.005 is an exact match, 60 a partial match of 60 percent with 40 remaining, and
  150 is unmatched. Two payments of 60 are both matched to the same invoice.
\<close>

theorem first_fit_matcher_witness:
  "list_all (readable_total (\<lambda>t. None)) [pending_of ''INV-1'' 100]
   \<and> match_all (\<lambda>t. None) [pending_of ''INV-1'' 100] [paying 100.005, paying 60, paying 150]
      = Inr [\<lparr>matched = True, m_invoice = Some (pending_of ''INV-1'' 100),
               m_payment = paying 100.005, match_type = Some ''exact'', difference = Some 0,
               paid_percentage = None, m_reason = None\<rparr>,
             \<lparr>matched = True, m_invoice = Some (pending_of ''INV-1'' 100),
               m_payment = paying 60, match_type = Some ''partial'', difference = Some 40,
               paid_percentage = Some 60, m_reason = None\<rparr>,
             \<lparr>matched = False, m_invoice = None, m_payment = paying 150, match_type = None,
               difference = None, paid_percentage = None,
               m_reason = Some ''No matching invoice found''\<rparr>]
   \<and> reconcile_payments (\<lambda>t. None) [pending_of ''INV-1'' 100] [paying 60, paying 60]
      = Inr [\<lparr>matched = True, m_invoice = Some (pending_of ''INV-1'' 100),
               m_payment = paying 60, match_type = Some ''partial'', difference = Some 40,
               paid_percentage = Some 60, m_reason = None\<rparr>,
             \<lparr>matched = True, m_invoice = Some (pending_of ''INV-1'' 100),
               m_payment = paying 60, match_type = Some ''partial'', difference = Some 40,
               paid_percentage = Some 60, m_reason = None\<rparr>]"
proof -
  have num: "list_all (readable_total (\<lambda>t. None)) [pending_of ''INV-1'' 100]"
    by (simp add: readable_total_def)
  have load: "load_pending_invoices [pending_of ''INV-1'' 100] = [pending_of ''INV-1'' 100]"
    by (simp add: load_pending_invoices_def)
  show ?thesis
    using first_fit_matcher [OF num, where payments = "[paying 100.005, paying 60, paying 150]"
            and data = "[pending_of ''INV-1'' 100]"]
          first_fit_matcher [OF num, where payments = "[paying 60, paying 60]"
            and data = "[pending_of ''INV-1'' 100]"]
          num load
    by (simp add: spec_match_def amount_of_def)
qed

text \<open>
  On a pending invoice whose total is a text that \<open>float\<close> rejects, the matcher raises
  before it compares anything.
\<close>

lemma unreadable_total_raises:
  assumes "total_amount invoice = Some (VStr t)" and "float_of_text t = None"
  shows "match_payment_to_invoice float_of_text (invoice # rest) p tolerance = Inl ValueError"
  using assms
  by (simp add: match_payment_to_invoice_def invoice_total_of_def py_float_def)

section \<open>A negative tolerance\<close>

lemma spec_match_negative_tolerance:
  assumes "tolerance < 0"
  shows "spec_match float_of_text pending p tolerance =
     (case find (\<lambda>invoice. 0 < pay_value p \<and> pay_value p < amount_of float_of_text invoice) pending of
        None \<Rightarrow> no_match p
      | Some invoice \<Rightarrow> partial_match invoice p (pay_value p) (amount_of float_of_text invoice))"
proof -
  have never: "\<not> \<bar>pay_value p - amount_of float_of_text invoice\<bar> \<le> tolerance" for invoice
    using assms by linarith
  show ?thesis
    by (simp add: spec_match_def never no_match_def partial_match_def split: option.split)
qed

text \<open>
  Claim C8, as stated: with a negative tolerance the matcher fails and returns no
  match result. It returns a partial match.
\<close>

theorem negative_tolerance_counterexample:
  "match_payment_to_invoice (\<lambda>t. None) [pending_of ''INV-1'' 100] (paying 60) (- 1)
     = Inr \<lparr>matched = True, m_invoice = Some (pending_of ''INV-1'' 100), m_payment = paying 60,
            match_type = Some ''partial'', difference = Some 40, paid_percentage = Some 60,
            m_reason = None\<rparr>"
  by (simp add: match_payment_to_invoice_def invoice_total_of_def py_float_def partial_match_def)

text \<open>
  Claim C8, amended. With a negative tolerance the matcher does not fail. The exact
  rule holds for no invoice, and the matcher returns the partial match for the first
  pending invoice whose total exceeds the positive payment, or the unmatched result.
\<close>

theorem negative_tolerance_matcher:
  assumes "tolerance < 0" and "list_all (readable_total float_of_text) pending"
  shows "match_payment_to_invoice float_of_text pending p tolerance =
     Inr (case find (\<lambda>invoice. 0 < pay_value p \<and> pay_value p < amount_of float_of_text invoice) pending of
            None \<Rightarrow> no_match p
          | Some invoice \<Rightarrow> partial_match invoice p (pay_value p) (amount_of float_of_text invoice))"
  using assms
  by (simp add: match_payment_to_invoice_def match_loop_spec spec_match_negative_tolerance)

theorem negative_tolerance_matcher_witness:
  "(- 1 :: real) < 0 \<and> list_all (readable_total (\<lambda>t. None)) [pending_of ''INV-1'' 100, pending_of ''INV-2'' 200]
   \<and> match_payment_to_invoice (\<lambda>t. None) [pending_of ''INV-1'' 100, pending_of ''INV-2'' 200]
        (paying 100) (- 1)
      = Inr (partial_match (pending_of ''INV-2'' 200) (paying 100) 100 200)"
proof -
  have neg: "(- 1 :: real) < 0" by simp
  have num: "list_all (readable_total (\<lambda>t. None)) [pending_of ''INV-1'' 100, pending_of ''INV-2'' 200]"
    by (simp add: readable_total_def)
  show ?thesis
    using negative_tolerance_matcher [OF neg num, where p = "paying 100"] neg num
    by (simp add: amount_of_def)
qed

section \<open>The supplier risk score\<close>

lemma frequency_factor_whole_days:
  assumes "\<not> (length recs > 10 \<and> length (collect_dates recs) = 1)"
  shows "frequency_factor recs = Inr (of_bool (whole_day_frequency_factor recs))"
proof (cases "length recs > 10")
  case False
  then show ?thesis
    by (simp add: frequency_factor_def whole_day_frequency_factor_def)
next
  case many: True
  show ?thesis
  proof (cases "collect_dates recs = []")
    case True
    with many show ?thesis
      by (simp add: frequency_factor_def whole_day_frequency_factor_def)
  next
    case False
    with many assms have two: "length (collect_dates recs) \<ge> 2"
      by (cases "collect_dates recs") (auto simp: Suc_le_eq)
    then have "length (sort (collect_dates recs)) - 1 \<noteq> 0" by simp
    with many False two show ?thesis
      by (simp add: frequency_factor_def whole_day_frequency_factor_def Let_def)
  qed
qed

lemma level_of_rounded:
  assumes "t = 2 \<or> t = 3" and "k \<le> t"
  shows "risk_level (real k / real t * 100) = level_of (py_round (real k / real t * 100))"
proof -
  from assms have "(k, t) \<in> {(0, 2), (1, 2), (2, 2), (0, 3), (1, 3), (2, 3), (3, 3)}"
    by auto
  then show ?thesis
    by (auto simp: risk_level_def level_of_def py_round_def)
qed

lemma of_bool_le_one: "of_bool b \<le> (1::nat)"
  by simp

text \<open>
  Claim C1, amended. For a supplier without records the scorer returns the score 50
  and the level medium. Otherwise the score is the share of triggered factors among the
  applicable ones, times 100 and rounded, and the level is low below 30, medium below 60
  and high from 60 on, where the third factor is: more than 10 records, at least two
  readable timestamps, and a mean under 3 of the gaps between consecutive sorted
  timestamps, each gap cut down to whole days. The case of more than 10 records with
  exactly one readable timestamp is left out.
\<close>

theorem risk_score_whole_days:
  assumes "\<not> (length (supplier_records invoices_db name) > 10
             \<and> length (collect_dates (supplier_records invoices_db name)) = 1)"
  shows "\<exists>r. calculate_risk_score invoices_db name = Inr r
             \<and> (score r, level r) = scored_by whole_day_frequency_factor invoices_db name"
proof (cases "supplier_records invoices_db name = []")
  case True
  then show ?thesis
    by (simp add: calculate_risk_score_def scored_by_def supplier_records_def)
next
  case False
  let ?recs = "supplier_records invoices_db name"
  let ?k = "of_bool (flagged_factor ?recs) + of_bool (variance_factor ?recs)
            + of_bool (whole_day_frequency_factor ?recs) :: nat"
  let ?t = "if length ?recs \<ge> 2 then 3 else 2 :: nat"
  have freq: "frequency_factor ?recs = Inr (of_bool (whole_day_frequency_factor ?recs))"
    using assms by (rule frequency_factor_whole_days)
  have t: "?t = 2 \<or> ?t = 3" by simp
  have "\<not> length ?recs \<ge> 2 \<Longrightarrow> \<not> variance_factor ?recs"
    by (simp add: variance_factor_def Let_def)
  then have k: "?k \<le> ?t"
    using of_bool_le_one [of "flagged_factor ?recs"] of_bool_le_one [of "variance_factor ?recs"]
          of_bool_le_one [of "whole_day_frequency_factor ?recs"]
    by (cases "length ?recs \<ge> 2") simp_all
  have lev: "risk_level (real ?k / real ?t * 100) = level_of (py_round (real ?k / real ?t * 100))"
    using t k by (rule level_of_rounded)
  have code: "calculate_risk_score invoices_db name =
      Inr \<lparr>score = py_round (real ?k / real ?t * 100),
           level = risk_level (real ?k / real ?t * 100), rreason = None,
           total_invoices = Some (length ?recs),
           flagged_invoices = Some (length (filter has_flags ?recs))\<rparr>"
    using False
    unfolding calculate_risk_score_def Let_def supplier_records_def [symmetric] freq
    by (auto simp: flagged_factor_def variance_factor_def Let_def Suc_le_eq)
  have spec: "scored_by whole_day_frequency_factor invoices_db name =
      (py_round (real ?k / real ?t * 100), level_of (py_round (real ?k / real ?t * 100)))"
    using False by (simp add: scored_by_def Let_def)
  show ?thesis
    unfolding code lev spec by simp
qed

lemma eleven_supplier: "supplier_records eleven_records ''ACME LTD'' = eleven_records"
  by (simp add: supplier_records_def get_str_def lower_def lower_char_def)

lemma eleven_dates:
  "sort (collect_dates eleven_records) =
     [0, 216000000000, 518400000000, 820800000000, 1123200000000, 1425600000000,
      1728000000000, 2030400000000, 2332800000000, 2635200000000, 2937600000000]"
  by simp

lemma upt_ten: "[0 ..< 10] = [0, 1, 2, 3, 4, 5, 6, 7, 8, 9]"
  by (simp add: upt_rec)

lemma eleven_day_gaps: "day_gaps (sort (collect_dates eleven_records)) = [2, 3, 3, 3, 3, 3, 3, 3, 3, 3]"
  unfolding eleven_dates by (simp add: day_gaps_def days_def upt_ten)

lemma eleven_gaps: "sum_list (gaps (sort (collect_dates eleven_records))) = 2937600000000"
  unfolding eleven_dates by (simp add: gaps_def upt_ten)

lemma eleven_flagged: "filter has_flags eleven_records = []"
  by (simp add: has_flags_def)

lemma eleven_amounts:
  "map (\<lambda>invoice. safe_float (py_get (total_amount invoice)) 0) eleven_records = replicate 11 100"
  by (simp add: safe_float_def py_get_def eval_nat_numeral)

lemma eleven_stdev: "mean (replicate 11 100) = 100" "stdev (replicate 11 100) = 0"
  by (simp_all add: mean_def stdev_def eval_nat_numeral)

lemma eleven_code:
  "calculate_risk_score eleven_records ''ACME LTD'' =
     Inr \<lparr>score = 33, level = ''medium'', rreason = None, total_invoices = Some 11,
          flagged_invoices = Some 0\<rparr>"
proof -
  have freq: "frequency_factor eleven_records = Inr 1"
    unfolding frequency_factor_def Let_def eleven_day_gaps
    by (simp add: eleven_dates)
  have supp: "filter (\<lambda>invoice. lower (get_str (supplier_name invoice)) = lower ''ACME LTD'') eleven_records
        = eleven_records"
    using eleven_supplier by (simp add: supplier_records_def)
  show ?thesis
    unfolding calculate_risk_score_def Let_def supp eleven_flagged eleven_amounts eleven_stdev freq
    by (simp add: py_round_def risk_level_def)
qed

lemma eleven_spec:
  "scored_by spec_frequency_factor eleven_records ''ACME LTD'' = (0, ''low'')"
proof -
  have f1: "\<not> flagged_factor eleven_records"
    unfolding flagged_factor_def eleven_flagged by simp
  have f2: "\<not> variance_factor eleven_records"
    unfolding variance_factor_def Let_def eleven_amounts eleven_stdev by simp
  have f3: "\<not> spec_frequency_factor eleven_records"
    unfolding spec_frequency_factor_def Let_def eleven_gaps by (simp add: eleven_dates)
  show ?thesis
    unfolding scored_by_def Let_def eleven_supplier using f1 f2 f3
    by (simp add: py_round_def level_of_def)
qed

text \<open>
  Claim C1, as stated: the third factor is triggered when the mean gap between
  consecutive timestamps is under 3 days. For eleven records with gaps of two and a
  half days once and three and a half days nine times, the mean gap is 3.4 days and no
  factor is triggered, which gives the score 0 and the level low; the scorer returns
  the score 33 and the level medium.
\<close>

theorem risk_score_mean_gap_counterexample:
  "calculate_risk_score eleven_records ''ACME LTD'' =
     Inr \<lparr>score = 33, level = ''medium'', rreason = None, total_invoices = Some 11,
          flagged_invoices = Some 0\<rparr>
   \<and> scored_by spec_frequency_factor eleven_records ''ACME LTD'' = (0, ''low'')"
  using eleven_code eleven_spec by simp

theorem risk_score_whole_days_witness:
  "\<not> (length (supplier_records eleven_records ''ACME LTD'') > 10
       \<and> length (collect_dates (supplier_records eleven_records ''ACME LTD'')) = 1)
   \<and> scored_by whole_day_frequency_factor eleven_records ''ACME LTD'' = (33, ''medium'')
   \<and> calculate_risk_score [] ''ACME LTD'' =
       Inr \<lparr>score = 50, level = ''medium'',
            rreason = Some ''New supplier - no historical data'',
            total_invoices = None, flagged_invoices = None\<rparr>"
proof -
  have dates: "length (collect_dates eleven_records) = 11" by simp
  have ok: "\<not> (length (supplier_records eleven_records ''ACME LTD'') > 10
       \<and> length (collect_dates (supplier_records eleven_records ''ACME LTD'')) = 1)"
    unfolding eleven_supplier dates by simp
  have new: "calculate_risk_score [] ''ACME LTD'' =
       Inr \<lparr>score = 50, level = ''medium'',
            rreason = Some ''New supplier - no historical data'',
            total_invoices = None, flagged_invoices = None\<rparr>"
    by (simp add: calculate_risk_score_def)
  from risk_score_whole_days [OF ok] eleven_code
  have "scored_by whole_day_frequency_factor eleven_records ''ACME LTD'' = (33, ''medium'')"
    by auto
  with ok new show ?thesis by blast
qed

text \<open>
  The case left out: with more than 10 records and exactly one readable timestamp the
  division by the number of gaps raises.
\<close>

lemma risk_score_single_date_raises:
  "calculate_risk_score one_dated_record ''Acme Ltd'' = Inl ZeroDivisionError"
proof -
  have supp: "filter (\<lambda>invoice. lower (get_str (supplier_name invoice)) = lower ''Acme Ltd'')
            one_dated_record = one_dated_record"
    by (simp add: get_str_def lower_def lower_char_def eval_nat_numeral)
  have dates: "collect_dates one_dated_record = [0]"
    by (simp add: eval_nat_numeral)
  have freq: "frequency_factor one_dated_record = Inl ZeroDivisionError"
    unfolding frequency_factor_def dates by simp
  show ?thesis
    unfolding calculate_risk_score_def Let_def supp freq by simp
qed

end
